theory Spec2Isabelle
  imports Complex_Main
begin

section \<open>Named shapes and errors\<close>

text \<open>
  A named shape is a Python \<open>dict[str, int]\<close>: insertion ordered, keys unique. It is
  modelled as an association list whose keys are pairwise distinct; the order of the
  list is the insertion order of the dictionary.
\<close>

type_synonym shape = "(string \<times> int) list"

text \<open>
  The exceptions raised by the modelled functions. The payload records what the
  formatted message of the source mentions.
\<close>

datatype message =
    Shapes_not_compatible "shape list"
  | Item_not_supported string
  | Item_empty
  | Missing_key string
  | Index_out_of_bounds int int
  | Negative_seed int

datatype py_error =
    ValueError message
  | TypeError message
  | KeyError message
  | IndexError message

fun is_TypeError :: "py_error \<Rightarrow> bool" where
  "is_TypeError (TypeError m) = True"
| "is_TypeError e = False"

text \<open>\<open>d[k] = v\<close> on a dictionary: an existing key keeps its position, a new key goes last.\<close>

fun dict_set :: "('k \<times> 'v) list \<Rightarrow> 'k \<Rightarrow> 'v \<Rightarrow> ('k \<times> 'v) list" where
  "dict_set [] k v = [(k, v)]"
| "dict_set ((k', v') # d) k v =
     (if k' = k then (k', v) # d else (k', v') # dict_set d k v)"

section \<open>\<open>broadcast_shapes\<close> (core.py)\<close>

text \<open>
  The body of the inner loop for one \<open>axis\<close> of the current \<open>shape\<close>, where \<open>n\<close> is
  \<open>shape[axis]\<close>. The tuple \<open>shapes\<close> of all arguments is only used in the message.
\<close>

fun broadcast_axis :: "shape list \<Rightarrow> shape \<Rightarrow> string \<times> int \<Rightarrow> py_error + shape" where
  "broadcast_axis shapes result (axis, n) =
     (case map_of result axis of
        Some m \<Rightarrow>
          if m = n then Inr result
          else if n = 1 then Inr result
          else if m = 1 then Inr (dict_set result axis n)
          else Inl (ValueError (Shapes_not_compatible shapes))
      | None \<Rightarrow> Inr (dict_set result axis n))"

text \<open>The inner loop \<open>for axis in reversed(shape)\<close>; the caller passes the reversed items.\<close>

fun broadcast_shape :: "shape list \<Rightarrow> (string \<times> int) list \<Rightarrow> shape \<Rightarrow> py_error + shape" where
  "broadcast_shape shapes [] result = Inr result"
| "broadcast_shape shapes (a # as) result =
     (case broadcast_axis shapes result a of
        Inl e \<Rightarrow> Inl e
      | Inr result' \<Rightarrow> broadcast_shape shapes as result')"

text \<open>The outer loop \<open>for shape in shapes\<close>.\<close>

fun broadcast_loop :: "shape list \<Rightarrow> shape list \<Rightarrow> shape \<Rightarrow> py_error + shape" where
  "broadcast_loop shapes [] result = Inr result"
| "broadcast_loop shapes (s # ss) result =
     (case broadcast_shape shapes (rev s) result of
        Inl e \<Rightarrow> Inl e
      | Inr result' \<Rightarrow> broadcast_loop shapes ss result')"

text \<open>The closing comprehension \<open>{axis: result[axis] for axis in reversed(result)}\<close>.\<close>

definition reversed_dict :: "shape \<Rightarrow> shape" where
  "reversed_dict result = map (\<lambda>axis. (axis, the (map_of result axis))) (rev (map fst result))"

definition broadcast_shapes :: "shape list \<Rightarrow> py_error + shape" where
  "broadcast_shapes shapes =
     (case broadcast_loop shapes shapes [] of
        Inl e \<Rightarrow> Inl e
      | Inr result \<Rightarrow> Inr (reversed_dict result))"

text \<open>Two sizes of one axis are compatible when they agree or one of them is 1.\<close>

definition compatible :: "int \<Rightarrow> int \<Rightarrow> bool" where
  "compatible m n = (m = n \<or> m = 1 \<or> n = 1)"

definition broadcast_size :: "int \<Rightarrow> int \<Rightarrow> int" where
  "broadcast_size m n = (if m = n then m else if m = 1 then n else m)"

text \<open>The list of the axes two shapes share on which the sizes conflict.\<close>

definition conflicts :: "shape \<Rightarrow> shape \<Rightarrow> string list" where
  "conflicts A B =
     filter (\<lambda>k. case map_of B k of None \<Rightarrow> False | Some n \<Rightarrow> \<not> compatible (the (map_of A k)) n)
       (map fst A)"

text \<open>The size a call reports for an axis: nothing when it raised or the axis is absent.\<close>

definition size_of :: "py_error + shape \<Rightarrow> string \<Rightarrow> int option" where
  "size_of res k = (case res of Inl e \<Rightarrow> None | Inr r \<Rightarrow> map_of r k)"

section \<open>\<open>type_array\<close> (core.py)\<close>

text \<open>
  An operand of \<open>type_array\<close> is either a named array, of which only
  \<open>value.type_array\<close> (its explicit array class) is read, or one of the plain values the
  signature lists. The class attribute \<open>__named_array_priority__\<close> is abstract in
  \<open>AbstractArray\<close>; it is the parameter \<open>priority\<close>.
\<close>

datatype plain_value =
    PyBool bool
  | PyInt int
  | PyFloat real
  | PyComplex complex
  | PyStr string
  | NDArray "real list"
  | Quantity "real list" string

datatype 'c operand = Named 'c | Plain plain_value

fun type_array_loop :: "('c \<Rightarrow> real) \<Rightarrow> 'c operand list \<Rightarrow> 'c option \<Rightarrow> real \<Rightarrow> 'c option" where
  "type_array_loop priority [] cls priority_max = cls"
| "type_array_loop priority (Plain v # values) cls priority_max =
     type_array_loop priority values cls priority_max"
| "type_array_loop priority (Named cls_tmp # values) cls priority_max =
     (if priority cls_tmp > priority_max
      then type_array_loop priority values (Some cls_tmp) (priority cls_tmp)
      else type_array_loop priority values cls priority_max)"

definition type_array :: "('c \<Rightarrow> real) \<Rightarrow> 'c operand list \<Rightarrow> 'c option" where
  "type_array priority values = type_array_loop priority values None 0"

text \<open>The explicit array classes of the operands that are named arrays, in call order.\<close>

fun named_types :: "'c operand list \<Rightarrow> 'c list" where
  "named_types [] = []"
| "named_types (Plain v # values) = named_types values"
| "named_types (Named c # values) = c # named_types values"

text \<open>
  The selection in the words of the specification: the first class, in call order, whose
  priority is the highest among the classes present; nothing when no class is present.
\<close>

definition first_maximal :: "('c \<Rightarrow> real) \<Rightarrow> 'c list \<Rightarrow> 'c option" where
  "first_maximal priority cs = find (\<lambda>c. list_all (\<lambda>d. priority d \<le> priority c) cs) cs"

text \<open>A priority table in which the scalar class has priority 0.\<close>

fun example_priority :: "string \<Rightarrow> real" where
  "example_priority c =
     (if c = ''ScalarArray'' then 0
      else if c = ''Cartesian2dVectorArray'' then 1
      else if c = ''Cartesian3dVectorArray'' then 1
      else 2)"

section \<open>\<open>AbstractArray.__getitem__\<close> (core.py)\<close>

text \<open>
  An item is a dictionary from axis names to an integer, a slice or a named array, or a
  single named array; anything else falls through both \<open>isinstance\<close> tests. Arrays are
  values of a type \<open>'a\<close>. The abstract methods \<open>_getitem\<close> and \<open>_getitem_reversed\<close> and
  \<open>type(self)\<close> are parameters; a handler returns \<open>NotImplemented\<close>, returns a result, or
  raises.
\<close>

datatype 'a index_spec =
    IntIndex int
  | SliceIndex "int option" "int option" "int option"
  | ArrayIndex 'a

datatype 'a item =
    ItemDict "(string \<times> 'a index_spec) list"
  | ItemArray 'a
  | ItemOther

datatype 'r handled = NotImplemented | Result 'r

type_synonym ('a, 'r) own_handler = "'a \<Rightarrow> 'a item \<Rightarrow> py_error + 'r handled"

type_synonym ('a, 'r) reversed_handler = "'a \<Rightarrow> 'a \<Rightarrow> 'a item \<Rightarrow> py_error + 'r handled"

text \<open>
  The loop \<open>for ax in item\<close>: \<open>getitem_reversed b self item\<close> is
  \<open>b._getitem_reversed(self, item)\<close>. The loop ends with \<open>NotImplemented\<close> when no
  sub-item answered.
\<close>

fun getitem_dict_loop ::
  "('a, 'r) reversed_handler \<Rightarrow> 'a \<Rightarrow> 'a item \<Rightarrow> (string \<times> 'a index_spec) list
   \<Rightarrow> py_error + 'r handled" where
  "getitem_dict_loop getitem_reversed self item [] = Inr NotImplemented"
| "getitem_dict_loop getitem_reversed self item ((ax, ArrayIndex b) # rest) =
     (case getitem_reversed b self item of
        Inl e \<Rightarrow> Inl e
      | Inr (Result r) \<Rightarrow> Inr (Result r)
      | Inr NotImplemented \<Rightarrow> getitem_dict_loop getitem_reversed self item rest)"
| "getitem_dict_loop getitem_reversed self item ((ax, IntIndex i) # rest) =
     getitem_dict_loop getitem_reversed self item rest"
| "getitem_dict_loop getitem_reversed self item ((ax, SliceIndex lo hi st) # rest) =
     getitem_dict_loop getitem_reversed self item rest"

definition getitem ::
  "('a, 'r) own_handler \<Rightarrow> ('a, 'r) reversed_handler \<Rightarrow> ('a \<Rightarrow> string) \<Rightarrow> 'a \<Rightarrow> 'a item
   \<Rightarrow> py_error + 'r" where
  "getitem getitem_own getitem_reversed type_name self item =
     (case getitem_own self item of
        Inl e \<Rightarrow> Inl e
      | Inr (Result r) \<Rightarrow> Inr r
      | Inr NotImplemented \<Rightarrow>
          (case (case item of
                   ItemDict d \<Rightarrow> getitem_dict_loop getitem_reversed self item d
                 | ItemArray b \<Rightarrow> getitem_reversed b self item
                 | ItemOther \<Rightarrow> Inr NotImplemented) of
             Inl e \<Rightarrow> Inl e
           | Inr (Result r) \<Rightarrow> Inr r
           | Inr NotImplemented \<Rightarrow> Inl (ValueError (Item_not_supported (type_name self)))))"

text \<open>The named arrays whose reversed handler an item offers, in the order they are asked.\<close>

fun array_subitems :: "(string \<times> 'a index_spec) list \<Rightarrow> 'a list" where
  "array_subitems [] = []"
| "array_subitems ((ax, ArrayIndex b) # rest) = b # array_subitems rest"
| "array_subitems ((ax, IntIndex i) # rest) = array_subitems rest"
| "array_subitems ((ax, SliceIndex lo hi st) # rest) = array_subitems rest"

fun responders :: "'a item \<Rightarrow> 'a list" where
  "responders (ItemDict d) = array_subitems d"
| "responders (ItemArray b) = [b]"
| "responders ItemOther = []"

text \<open>Whether a call ended in an exception of class \<open>TypeError\<close>.\<close>

definition raised_TypeError :: "py_error + 'r \<Rightarrow> bool" where
  "raised_TypeError res = (case res of Inl e \<Rightarrow> is_TypeError e | Inr r \<Rightarrow> False)"

text \<open>Handlers that always decline, and a class name, for a concrete call.\<close>

definition declining_own :: "(string, int) own_handler" where
  "declining_own self item = Inr NotImplemented"

definition declining_reversed :: "(string, int) reversed_handler" where
  "declining_reversed b self item = Inr NotImplemented"

definition class_of :: "string \<Rightarrow> string" where
  "class_of self = ''ScalarArray''"

definition answering_reversed :: "(string, int) reversed_handler" where
  "answering_reversed b self item = (if b = ''mask'' then Inr (Result 7) else Inr NotImplemented)"

section \<open>\<open>AbstractArray.interp_linear\<close> (core.py)\<close>

text \<open>
  A coordinate is a finite number, modelled as a real; comparing it and taking its floor
  are exact. \<open>int(x)\<close> truncates towards zero.
\<close>

definition py_int :: "real \<Rightarrow> int" where
  "py_int x = (if 0 \<le> x then \<lfloor>x\<rfloor> else \<lceil>x\<rceil>)"

text \<open>\<open>self.shape[axis]\<close>, which raises \<open>KeyError\<close> for an axis the array does not have.\<close>

definition shape_lookup :: "shape \<Rightarrow> string \<Rightarrow> py_error + int" where
  "shape_lookup shape axis =
     (case map_of shape axis of
        None \<Rightarrow> Inl (KeyError (Missing_key axis))
      | Some n \<Rightarrow> Inr n)"

text \<open>
  The lower neighbour \<open>x0\<close> of a coordinate without axes (the branch where \<open>x.shape\<close>
  is empty).
\<close>

definition lower_neighbor :: "shape \<Rightarrow> string \<Rightarrow> real \<Rightarrow> py_error + int" where
  "lower_neighbor shape axis x =
     (if x < 0 then Inr 0
      else case shape_lookup shape axis of
             Inl e \<Rightarrow> Inl e
           | Inr n \<Rightarrow> if x \<ge> real_of_int (n - 1) then Inr (n - 2) else Inr (py_int x))"



text \<open>
  The entries of \<open>item_base\<close>: an integer index, or the index range
  \<open>ScalarArrayRange(start, stop)\<close> that \<open>indices\<close> builds for an axis.
\<close>

datatype base_index = At int | Along int int

definition indices :: "shape \<Rightarrow> (string \<times> base_index) list" where
  "indices shape = map (\<lambda>(axis, n). (axis, Along 0 n)) shape"

text \<open>
  What \<open>interp_linear\<close> uses of the array: \<open>self.shape\<close>, indexing \<open>self[item_base]\<close> with
  an item of integers and ranges, and the shape of \<open>self[{ax: 0 for ax in item}]\<close>. The
  indexing handlers of the concrete classes are parameters, held in this record.
\<close>

record 'v array_ops =
  shape_of :: shape
  getitem_at :: "(string \<times> base_index) list \<Rightarrow> py_error + 'v"
  zero_shape :: "string list \<Rightarrow> py_error + shape"

text \<open>
  The arithmetic of the numeric library in \<open>y0 + (x - x0) * (y1 - y0)\<close>, on values of
  type \<open>'v\<close> and weights of type \<open>'w\<close>: \<open>weight x x0\<close> is \<open>x - x0\<close>, \<open>sub\<close> the
  difference of two values, \<open>mul\<close> the product of a weight and a value, \<open>add\<close> the sum of
  two values. Which arithmetic this is depends on the data type of the array.
\<close>

record ('w, 'v) arithmetic =
  weight :: "real \<Rightarrow> int \<Rightarrow> 'w"
  sub :: "'v \<Rightarrow> 'v \<Rightarrow> 'v"
  mul :: "'w \<Rightarrow> 'v \<Rightarrow> 'v"
  add :: "'v \<Rightarrow> 'v \<Rightarrow> 'v"

text \<open>
  \<open>_interp_linear_recursive\<close> for coordinates without axes. The first key of \<open>item\<close> is
  popped; \<open>{**item_base, axis: x0}\<close> is \<open>dict_set\<close>.
\<close>

fun interp_linear_recursive ::
  "('w, 'v) arithmetic \<Rightarrow> 'v array_ops \<Rightarrow> (string \<times> real) list \<Rightarrow> (string \<times> base_index) list
   \<Rightarrow> py_error + 'v" where
  "interp_linear_recursive ar self [] item_base = Inl (ValueError Item_empty)"
| "interp_linear_recursive ar self ((axis, x) # item) item_base =
     (case lower_neighbor (shape_of self) axis x of
        Inl e \<Rightarrow> Inl e
      | Inr x0 \<Rightarrow>
          (case (if item \<noteq> []
                 then interp_linear_recursive ar self item (dict_set item_base axis (At x0))
                 else getitem_at self (dict_set item_base axis (At x0))) of
             Inl e \<Rightarrow> Inl e
           | Inr y0 \<Rightarrow>
               (case (if item \<noteq> []
                      then interp_linear_recursive ar self item
                             (dict_set item_base axis (At (x0 + 1)))
                      else getitem_at self (dict_set item_base axis (At (x0 + 1)))) of
                  Inl e \<Rightarrow> Inl e
                | Inr y1 \<Rightarrow> Inr (add ar y0 (mul ar (weight ar x x0) (sub ar y1 y0))))))"

definition interp_linear ::
  "('w, 'v) arithmetic \<Rightarrow> 'v array_ops \<Rightarrow> (string \<times> real) list \<Rightarrow> py_error + 'v" where
  "interp_linear ar self item =
     (case zero_shape self (map fst item) of
        Inl e \<Rightarrow> Inl e
      | Inr s \<Rightarrow> interp_linear_recursive ar self item (indices s))"

text \<open>Exact arithmetic, on values in a vector space over the reals.\<close>

definition exact_arithmetic :: "(real, 'v::real_vector) arithmetic" where
  "exact_arithmetic =
     \<lparr> weight = (\<lambda>x x0. x - real_of_int x0),
       sub = (\<lambda>a b. a - b),
       mul = (\<lambda>w d. w *\<^sub>R d),
       add = (\<lambda>a b. a + b) \<rparr>"

text \<open>
  An arithmetic is exact at the grid points when \<open>y0 + (x0 - x0) * (y1 - y0)\<close> is \<open>y0\<close>
  and \<open>y0 + (x0 + 1 - x0) * (y1 - y0)\<close> is \<open>y1\<close>, for all values.
\<close>

definition exact_at_grid :: "('w, 'v) arithmetic \<Rightarrow> bool" where
  "exact_at_grid ar =
     (\<forall>x0 y0 y1.
        add ar y0 (mul ar (weight ar (real_of_int x0) x0) (sub ar y1 y0)) = y0 \<and>
        add ar y0 (mul ar (weight ar (real_of_int (x0 + 1)) x0) (sub ar y1 y0)) = y1)"

text \<open>
  The arithmetic of an array of data type \<open>float64\<close>: IEEE 754 binary64 with rounding to
  nearest, ties to even. A value is a finite real, an infinity (\<open>Infinity True\<close> is the
  negative one) or NaN; the two zeros, which compare equal, are not told apart. \<open>round_to_even\<close> rounds to the
  nearest integer; \<open>round_nearest\<close> rounds a real to 53 significant bits, with the exponent
  bounded below as for subnormal numbers; a rounded magnitude of \<open>2 ^ 1024\<close> or more
  overflows to an infinity.
\<close>

definition round_to_even :: "real \<Rightarrow> int" where
  "round_to_even x =
     (if x - real_of_int \<lfloor>x\<rfloor> < 1 / 2 then \<lfloor>x\<rfloor>
      else if x - real_of_int \<lfloor>x\<rfloor> > 1 / 2 then \<lfloor>x\<rfloor> + 1
      else if even \<lfloor>x\<rfloor> then \<lfloor>x\<rfloor> else \<lfloor>x\<rfloor> + 1)"

definition round_nearest :: "real \<Rightarrow> real" where
  "round_nearest x =
     (if x = 0 then 0
      else real_of_int (round_to_even (x / 2 powr real_of_int (max \<lfloor>log 2 \<bar>x\<bar>\<rfloor> (- 1022) - 52)))
           * 2 powr real_of_int (max \<lfloor>log 2 \<bar>x\<bar>\<rfloor> (- 1022) - 52))"

datatype binary64 = Finite real | Infinity bool | NaN

definition to_binary64 :: "real \<Rightarrow> binary64" where
  "to_binary64 x =
     (if \<bar>round_nearest x\<bar> \<ge> 2 ^ 1024 then Infinity (x < 0) else Finite (round_nearest x))"

fun binary64_add :: "binary64 \<Rightarrow> binary64 \<Rightarrow> binary64" where
  "binary64_add (Finite a) (Finite b) = to_binary64 (a + b)"
| "binary64_add (Finite a) (Infinity t) = Infinity t"
| "binary64_add (Infinity s) (Finite b) = Infinity s"
| "binary64_add (Infinity s) (Infinity t) = (if s = t then Infinity s else NaN)"
| "binary64_add NaN b = NaN"
| "binary64_add a NaN = NaN"

fun binary64_neg :: "binary64 \<Rightarrow> binary64" where
  "binary64_neg (Finite a) = Finite (- a)"
| "binary64_neg (Infinity s) = Infinity (\<not> s)"
| "binary64_neg NaN = NaN"

definition binary64_sub :: "binary64 \<Rightarrow> binary64 \<Rightarrow> binary64" where
  "binary64_sub a b = binary64_add a (binary64_neg b)"

fun binary64_mul :: "binary64 \<Rightarrow> binary64 \<Rightarrow> binary64" where
  "binary64_mul (Finite a) (Finite b) = to_binary64 (a * b)"
| "binary64_mul (Finite a) (Infinity t) = (if a = 0 then NaN else Infinity ((a < 0) \<noteq> t))"
| "binary64_mul (Infinity s) (Finite b) = (if b = 0 then NaN else Infinity (s \<noteq> (b < 0)))"
| "binary64_mul (Infinity s) (Infinity t) = Infinity (s \<noteq> t)"
| "binary64_mul NaN b = NaN"
| "binary64_mul a NaN = NaN"

definition binary64_arithmetic :: "(binary64, binary64) arithmetic" where
  "binary64_arithmetic =
     \<lparr> weight = (\<lambda>x x0. to_binary64 (x - real_of_int x0)),
       sub = binary64_sub,
       mul = binary64_mul,
       add = binary64_add \<rparr>"

text \<open>
  Modelled from the spec: an explicit array over one axis, which owns its data; the
  indexing of the concrete explicit classes is defined with the scalar classes. An integer
  index \<open>j\<close> of an axis of size \<open>n\<close> selects element \<open>j\<close>, counted from the end when \<open>j\<close> is
  negative, and is out of bounds outside \<open>-n \<le> j < n\<close>; indexing an axis with an integer
  removes it from the shape.
\<close>

definition element_at :: "'v list \<Rightarrow> int \<Rightarrow> py_error + 'v" where
  "element_at data j =
     (if 0 \<le> j \<and> j < int (length data) then Inr (data ! nat j)
      else if - int (length data) \<le> j \<and> j < 0 then Inr (data ! nat (int (length data) + j))
      else Inl (IndexError (Index_out_of_bounds j (int (length data)))))"

text \<open>
  Modelled from the spec: \<open>self[item]\<close> of that array for an item that gives one integer
  for its axis; other items are not supported.
\<close>

fun getitem_1d :: "string \<Rightarrow> 'v list \<Rightarrow> (string \<times> base_index) list \<Rightarrow> py_error + 'v" where
  "getitem_1d axis data [(ax, At j)] =
     (if ax = axis then element_at data j else Inl (KeyError (Missing_key ax)))"
| "getitem_1d axis data item = Inl (ValueError (Item_not_supported ''ScalarArray''))"

text \<open>
  Modelled from the spec: the shape of \<open>self[{ax: 0 for ax in item}]\<close> for that array, with
  the axes of the item removed; index 0 is out of bounds on an empty axis.
\<close>

fun zero_shape_1d :: "string \<Rightarrow> 'v list \<Rightarrow> string list \<Rightarrow> py_error + shape" where
  "zero_shape_1d axis data [] = Inr [(axis, int (length data))]"
| "zero_shape_1d axis data [ax] =
     (if ax \<noteq> axis then Inl (KeyError (Missing_key ax))
      else if data = [] then Inl (IndexError (Index_out_of_bounds 0 0))
      else Inr [])"
| "zero_shape_1d axis data axes = Inl (ValueError (Item_not_supported ''ScalarArray''))"

text \<open>
  Modelled from the spec: the explicit array over the axis \<open>axis\<close> that owns \<open>data\<close>.
\<close>

definition explicit_1d :: "string \<Rightarrow> 'v list \<Rightarrow> 'v array_ops" where
  "explicit_1d axis data =
     \<lparr> shape_of = [(axis, int (length data))],
       getitem_at = getitem_1d axis data,
       zero_shape = zero_shape_1d axis data \<rparr>"

text \<open>
  The lower neighbour in the words of the specification: the coordinate clamped into
  \<open>[0, n - 2]\<close>, that is 0 below 0, \<open>n - 2\<close> from \<open>n - 1\<close> on, and the floor otherwise.
\<close>

definition clamped_floor :: "int \<Rightarrow> real \<Rightarrow> int" where
  "clamped_floor n x =
     (if x < 0 then 0 else if real_of_int (n - 1) \<le> x then n - 2 else \<lfloor>x\<rfloor>)"

section \<open>Random arrays (core.py, scalar_named_array_functions.py)\<close>

text \<open>
  The dataclass field \<open>seed\<close> that \<open>AbstractRandomMixin\<close> requires; the concrete classes
  extend this record by their parameters. \<open>__post_init__\<close> runs once, when the dataclass is
  constructed. Everything ambient that a draw can depend on (the state of Python's module
  \<open>random\<close>, the state of numpy's global generator, the entropy of the operating system)
  is one explicit state \<open>w\<close>; \<open>random.randint\<close> is a parameter.
\<close>

record random_mixin =
  seed :: "int option"

definition post_init ::
  "(int \<Rightarrow> int \<Rightarrow> 'w \<Rightarrow> int \<times> 'w) \<Rightarrow> 'z random_mixin_scheme \<Rightarrow> 'w \<Rightarrow> 'z random_mixin_scheme \<times> 'w" where
  "post_init randint self w =
     (case seed self of
        None \<Rightarrow> (self\<lparr>seed := Some (fst (randint 0 (10 ^ 12) w))\<rparr>, snd (randint 0 (10 ^ 12) w))
      | Some s \<Rightarrow> (self, w))"

text \<open>
  The numeric and unit libraries, on raw data of type \<open>'n\<close>, units of type \<open>'u\<close> and
  generator states of type \<open>'gen\<close>. \<open>seeded_rng\<close> is the generator that
  \<open>numpy.random.default_rng\<close> makes from a non-negative integer seed, \<open>entropy_rng\<close> the
  one it makes from fresh entropy. \<open>generator_uniform\<close> is the method \<open>uniform\<close> of a
  generator, which advances the state of that generator; \<open>global_uniform\<close> is
  \<open>numpy.random.uniform\<close>, which advances the global generator. \<open>quantity_unit\<close> is the
  unit of a \<open>Quantity\<close> and nothing for other data.
\<close>

record ('n, 'u, 'gen, 'w) numpy =
  seeded_rng :: "int \<Rightarrow> 'gen"
  entropy_rng :: "'w \<Rightarrow> 'gen \<times> 'w"
  generator_uniform :: "'gen \<Rightarrow> 'n \<Rightarrow> 'n \<Rightarrow> int list \<Rightarrow> (py_error + 'n) \<times> 'gen"
  global_uniform :: "'n \<Rightarrow> 'n \<Rightarrow> int list \<Rightarrow> 'w \<Rightarrow> (py_error + 'n) \<times> 'w"
  quantity_unit :: "'n \<Rightarrow> 'u option"
  quantity_value :: "'n \<Rightarrow> 'n"
  to_value :: "'n \<Rightarrow> 'u \<Rightarrow> py_error + 'n"
  with_unit :: "'n \<Rightarrow> 'u \<Rightarrow> 'n"
  dimensionless_unscaled :: 'u

text \<open>
  \<open>numpy.random.default_rng(seed)\<close>: a new generator, from fresh entropy when the seed is
  \<open>None\<close>; a negative seed raises \<open>ValueError\<close>.
\<close>

definition default_rng ::
  "('n, 'u, 'gen, 'w) numpy \<Rightarrow> int option \<Rightarrow> 'w \<Rightarrow> (py_error + 'gen) \<times> 'w" where
  "default_rng np sd w =
     (case sd of
        None \<Rightarrow> (Inr (fst (entropy_rng np w)), snd (entropy_rng np w))
      | Some s \<Rightarrow>
          if s < 0 then (Inl (ValueError (Negative_seed s)), w)
          else (Inr (seeded_rng np s), w))"

text \<open>The property \<open>_rng\<close>: a new generator at every access.\<close>

definition rng ::
  "('n, 'u, 'gen, 'w) numpy \<Rightarrow> 'z random_mixin_scheme \<Rightarrow> 'w \<Rightarrow> (py_error + 'gen) \<times> 'w" where
  "rng np self w = default_rng np (seed self) w"

text \<open>
  A scalar array holds raw data and axis names. Its methods \<open>shape\<close> and
  \<open>ndarray_aligned\<close> are defined with the scalar classes and are parameters here.
\<close>

record 'n scalar_array =
  ndarray :: 'n
  axes :: "string list"

record 'n scalar_methods =
  shape_method :: "'n scalar_array \<Rightarrow> shape"
  ndarray_aligned :: "'n scalar_array \<Rightarrow> shape \<Rightarrow> py_error + 'n"

text \<open>
  An argument \<open>start\<close> or \<open>stop\<close>: a scalar array, a named array of another kind,
  \<open>None\<close>, or a plain number or quantity.
\<close>

datatype 'n uniform_arg =
    ScalarArg "'n scalar_array"
  | OtherArrayArg
  | NoneArg
  | PlainArg 'n

datatype 'n uniform_result =
    ReturnNotImplemented
  | ReturnNone
  | ReturnArray "'n scalar_array"

text \<open>The two \<open>isinstance\<close> cascades: an early return, or the argument as a scalar array.\<close>

fun as_scalar_array :: "'n uniform_arg \<Rightarrow> 'n uniform_result + 'n scalar_array" where
  "as_scalar_array (ScalarArg a) = Inr a"
| "as_scalar_array OtherArrayArg = Inl ReturnNotImplemented"
| "as_scalar_array NoneArg = Inl ReturnNone"
| "as_scalar_array (PlainArg v) = Inr \<lparr>ndarray = v, axes = []\<rparr>"

definition bind_error :: "py_error + 'a \<Rightarrow> ('a \<Rightarrow> py_error + 'b) \<Rightarrow> py_error + 'b" where
  "bind_error r f = (case r of Inl e \<Rightarrow> Inl e | Inr v \<Rightarrow> f v)"

text \<open>
  The part of \<open>random_uniform\<close> between the cascades and the draw: the broadcast shape,
  the aligned bounds with the unit taken off, and the unit of the result.
\<close>

definition uniform_bounds ::
  "('n, 'u, 'gen, 'w) numpy \<Rightarrow> 'n scalar_methods \<Rightarrow> 'n scalar_array \<Rightarrow> 'n scalar_array
   \<Rightarrow> shape option \<Rightarrow> py_error + ('n \<times> 'n \<times> shape \<times> 'u option)" where
  "uniform_bounds np sm start stop shape_random =
     bind_error
       (broadcast_shapes [shape_method sm start, shape_method sm stop,
          (case shape_random of None \<Rightarrow> [] | Some s \<Rightarrow> s)])
       (\<lambda>shape.
     bind_error (ndarray_aligned sm start shape) (\<lambda>start_a.
     bind_error (ndarray_aligned sm stop shape) (\<lambda>stop_a.
       (case quantity_unit np start_a of
          Some unit \<Rightarrow>
            bind_error
              (case quantity_unit np stop_a of
                 Some u \<Rightarrow> to_value np stop_a unit
               | None \<Rightarrow> to_value np (with_unit np stop_a (dimensionless_unscaled np)) unit)
              (\<lambda>stop_v. Inr (quantity_value np start_a, stop_v, shape, Some unit))
        | None \<Rightarrow>
            (case quantity_unit np stop_a of
               Some unit \<Rightarrow>
                 bind_error
                   (to_value np (with_unit np start_a (dimensionless_unscaled np)) unit)
                   (\<lambda>start_v. Inr (start_v, quantity_value np stop_a, shape, Some unit))
             | None \<Rightarrow> Inr (start_a, stop_a, shape, None))))))"

text \<open>
  The draw: \<open>numpy.random.uniform\<close> when \<open>seed\<close> is \<open>None\<close>, otherwise the method
  \<open>uniform\<close> of a new generator \<open>default_rng(seed)\<close>, whose state is dropped after the
  draw.
\<close>

definition uniform_draw ::
  "('n, 'u, 'gen, 'w) numpy \<Rightarrow> int option \<Rightarrow> 'n \<Rightarrow> 'n \<Rightarrow> int list \<Rightarrow> 'w
   \<Rightarrow> (py_error + 'n) \<times> 'w" where
  "uniform_draw np sd low high sz w =
     (case sd of
        None \<Rightarrow> global_uniform np low high sz w
      | Some s \<Rightarrow>
          (case default_rng np (Some s) w of
             (Inl e, w') \<Rightarrow> (Inl e, w')
           | (Inr gen, w') \<Rightarrow> (fst (generator_uniform np gen low high sz), w')))"

definition random_uniform ::
  "('n, 'u, 'gen, 'w) numpy \<Rightarrow> 'n scalar_methods \<Rightarrow> 'n uniform_arg \<Rightarrow> 'n uniform_arg
   \<Rightarrow> shape option \<Rightarrow> int option \<Rightarrow> 'w \<Rightarrow> (py_error + 'n uniform_result) \<times> 'w" where
  "random_uniform np sm start stop shape_random sd w =
     (case as_scalar_array start of
        Inl r \<Rightarrow> (Inr r, w)
      | Inr start_s \<Rightarrow>
     (case as_scalar_array stop of
        Inl r \<Rightarrow> (Inr r, w)
      | Inr stop_s \<Rightarrow>
     (case uniform_bounds np sm start_s stop_s shape_random of
        Inl e \<Rightarrow> (Inl e, w)
      | Inr (low, high, shape, unit) \<Rightarrow>
     (case uniform_draw np sd low high (map snd shape) w of
        (Inl e, w') \<Rightarrow> (Inl e, w')
      | (Inr v, w') \<Rightarrow>
          (Inr (ReturnArray
             \<lparr>ndarray = (case unit of None \<Rightarrow> v | Some u \<Rightarrow> with_unit np v u),
              axes = map fst shape\<rparr>), w')))))"

text \<open>
  Modelled from the spec: the property \<open>array\<close> of a random-carrying class (a uniform,
  normal or stratified sample), which the concrete classes define. Materialization draws
  from a generator seeded with the stored seed, the \<open>_rng\<close> of the object; \<open>draw\<close> is the
  draw of the class from that generator and the stored fields. The generator made for the
  access is dropped after it.
\<close>

definition materialize ::
  "('n, 'u, 'gen, 'w) numpy \<Rightarrow> ('gen \<Rightarrow> 'z random_mixin_scheme \<Rightarrow> (py_error + 'r) \<times> 'gen)
   \<Rightarrow> 'z random_mixin_scheme \<Rightarrow> 'w \<Rightarrow> (py_error + 'r) \<times> 'w" where
  "materialize np draw self w =
     (case rng np self w of
        (Inl e, w') \<Rightarrow> (Inl e, w')
      | (Inr gen, w') \<Rightarrow> (fst (draw gen self), w'))"

text \<open>The fields of a uniform random sample.\<close>

record 'n uniform_random_sample = random_mixin +
  start :: "'n uniform_arg"
  stop :: "'n uniform_arg"
  shape_random :: "shape option"

text \<open>
  Modelled from the spec: the property \<open>array\<close> of a uniform random sample of scalars,
  which the concrete class defines, as the call of \<open>random_uniform\<close> on the stored fields.
\<close>

definition array_uniform ::
  "('n, 'u, 'gen, 'w) numpy \<Rightarrow> 'n scalar_methods \<Rightarrow> 'n uniform_random_sample \<Rightarrow> 'w
   \<Rightarrow> (py_error + 'n uniform_result) \<times> 'w" where
  "array_uniform np sm self w =
     random_uniform np sm (start self) (stop self) (shape_random self) (seed self) w"

text \<open>Stand-ins for the libraries, to run the definitions on a concrete input.\<close>

definition counter_randint :: "int \<Rightarrow> int \<Rightarrow> nat \<Rightarrow> int \<times> nat" where
  "counter_randint a b w = (a + int w, Suc w)"

definition counter_numpy :: "(real list, string, nat, nat) numpy" where
  "counter_numpy =
     \<lparr> seeded_rng = nat,
       entropy_rng = (\<lambda>w. (w, Suc w)),
       generator_uniform = (\<lambda>gen low high sz. (Inr (map (\<lambda>l. l + real gen) low), Suc gen)),
       global_uniform = (\<lambda>low high sz w. (Inr (map (\<lambda>l. l + real w) low), Suc w)),
       quantity_unit = (\<lambda>n. None),
       quantity_value = (\<lambda>n. n),
       to_value = (\<lambda>n u. Inr n),
       with_unit = (\<lambda>n u. n),
       dimensionless_unscaled = [] \<rparr>"

definition plain_methods :: "real list scalar_methods" where
  "plain_methods =
     \<lparr> shape_method = (\<lambda>a. map (\<lambda>ax. (ax, int (length (ndarray a)))) (axes a)),
       ndarray_aligned = (\<lambda>a shape. Inr (ndarray a)) \<rparr>"

definition counter_draw :: "nat \<Rightarrow> 'z random_mixin_scheme \<Rightarrow> (py_error + real list) \<times> nat" where
  "counter_draw gen self = (Inr [real gen], Suc gen)"

section \<open>Proofs\<close>

subsection \<open>Facts about dictionaries\<close>

lemma map_of_dict_set: "map_of (dict_set d k v) = (map_of d)(k \<mapsto> v)"
  by (induction d k v rule: dict_set.induct) (auto simp: fun_eq_iff)

lemma keys_dict_set: "fst ` set (dict_set d k v) = insert k (fst ` set d)"
  by (induction d k v rule: dict_set.induct) auto

lemma distinct_dict_set: "distinct (map fst d) \<Longrightarrow> distinct (map fst (dict_set d k v))"
  by (induction d k v rule: dict_set.induct) (auto simp: keys_dict_set)

lemma dict_set_fresh: "k \<notin> fst ` set d \<Longrightarrow> dict_set d k v = d @ [(k, v)]"
  by (induction d k v rule: dict_set.induct) auto

lemma items_of_keys:
  "distinct (map fst d) \<Longrightarrow> map (\<lambda>k. (k, the (map_of d k))) (map fst d) = d"
proof (induction d)
  case Nil
  then show ?case by simp
next
  case (Cons p d)
  obtain k v where p: "p = (k, v)" by (cases p)
  from Cons.prems p have fresh: "k \<notin> set (map fst d)" and dist: "distinct (map fst d)"
    by auto
  have "map (\<lambda>j. (j, the (map_of ((k, v) # d) j))) (map fst d)
        = map (\<lambda>j. (j, the (map_of d j))) (map fst d)"
    using fresh by (intro map_cong) auto
  with Cons.IH [OF dist] p show ?case by simp
qed

lemma reversed_dict_rev: "distinct (map fst d) \<Longrightarrow> reversed_dict d = rev d"
proof -
  assume dist: "distinct (map fst d)"
  have "reversed_dict d = rev (map (\<lambda>k. (k, the (map_of d k))) (map fst d))"
    by (simp add: reversed_dict_def rev_map)
  with items_of_keys [OF dist] show ?thesis by simp
qed

lemma map_of_rev_distinct: "distinct (map fst d) \<Longrightarrow> map_of (rev d) = map_of d"
  by (rule ext) (metis distinct_rev map_of_SomeD map_of_is_SomeI rev_map set_rev not_Some_eq)

subsection \<open>One step and one pass of the merge\<close>

lemma broadcast_axis_Inr:
  assumes "broadcast_axis S r (k, n) = Inr r'"
  shows "map_of r' = (map_of r)(k \<mapsto> (case map_of r k of None \<Rightarrow> n | Some m \<Rightarrow> broadcast_size m n))"
    and "distinct (map fst r) \<Longrightarrow> distinct (map fst r')"
    and "map_of r k = Some m \<Longrightarrow> compatible m n"
  using assms
  by (auto simp: map_of_dict_set distinct_dict_set broadcast_size_def compatible_def fun_eq_iff
      split: option.splits if_splits)

lemma broadcast_axis_Inl:
  assumes "broadcast_axis S r (k, n) = Inl e"
  shows "e = ValueError (Shapes_not_compatible S)"
    and "\<exists>m. map_of r k = Some m \<and> \<not> compatible m n"
  using assms by (auto simp: compatible_def split: option.splits if_splits)

lemma broadcast_shape_distinct:
  "broadcast_shape S xs r = Inr r' \<Longrightarrow> distinct (map fst r) \<Longrightarrow> distinct (map fst r')"
proof (induction xs arbitrary: r)
  case Nil
  then show ?case by simp
next
  case (Cons a xs)
  obtain k n where a: "a = (k, n)" by (cases a)
  from Cons.prems(1) a obtain r1 where r1: "broadcast_axis S r (k, n) = Inr r1"
    and rest: "broadcast_shape S xs r1 = Inr r'"
    by (auto split: sum.splits)
  from Cons.IH [OF rest broadcast_axis_Inr(2) [OF r1 Cons.prems(2)]] show ?case .
qed

lemma broadcast_shape_lookup:
  "distinct (map fst xs) \<Longrightarrow> broadcast_shape S xs r = Inr r' \<Longrightarrow>
   map_of r' k =
     (case map_of xs k of
        None \<Rightarrow> map_of r k
      | Some n \<Rightarrow> Some (case map_of r k of None \<Rightarrow> n | Some m \<Rightarrow> broadcast_size m n))"
proof (induction xs arbitrary: r)
  case Nil
  then show ?case by simp
next
  case (Cons a xs)
  obtain j n where a: "a = (j, n)" by (cases a)
  from Cons.prems(2) a obtain r1 where r1: "broadcast_axis S r (j, n) = Inr r1"
    and rest: "broadcast_shape S xs r1 = Inr r'"
    by (auto split: sum.splits)
  from Cons.prems(1) a have fresh: "map_of xs j = None" and dist: "distinct (map fst xs)"
    by (auto simp: map_of_eq_None_iff)
  note step = broadcast_axis_Inr(1) [OF r1]
  note IH = Cons.IH [OF dist rest]
  show ?case
  proof (cases "k = j")
    case True
    with IH fresh step a show ?thesis by simp
  next
    case False
    with step have "map_of r1 k = map_of r k" by simp
    with IH a False show ?thesis by (simp split: option.splits)
  qed
qed

lemma broadcast_shape_fails_iff:
  "distinct (map fst xs) \<Longrightarrow>
   isl (broadcast_shape S xs r) \<longleftrightarrow>
     (\<exists>k m n. map_of r k = Some m \<and> map_of xs k = Some n \<and> \<not> compatible m n)"
proof (induction xs arbitrary: r)
  case Nil
  then show ?case by simp
next
  case (Cons a xs)
  obtain j n where a: "a = (j, n)" by (cases a)
  from Cons.prems a have fresh: "map_of xs j = None" and dist: "distinct (map fst xs)"
    by (auto simp: map_of_eq_None_iff)
  show ?case
  proof (cases "broadcast_axis S r (j, n)")
    case (Inl e)
    from broadcast_axis_Inl(2) [OF Inl] obtain m where "map_of r j = Some m" "\<not> compatible m n"
      by blast
    then have "\<exists>k m n'. map_of r k = Some m \<and> map_of (a # xs) k = Some n' \<and> \<not> compatible m n'"
      using a by (intro exI [of _ j] exI [of _ m] exI [of _ n]) simp
    with Inl a show ?thesis by simp
  next
    case (Inr r1)
    note step = broadcast_axis_Inr(1) [OF Inr]
    note ok = broadcast_axis_Inr(3) [OF Inr]
    have "isl (broadcast_shape S (a # xs) r) = isl (broadcast_shape S xs r1)"
      using Inr a by simp
    also have "\<dots> \<longleftrightarrow> (\<exists>k m n. map_of r1 k = Some m \<and> map_of xs k = Some n \<and> \<not> compatible m n)"
      by (rule Cons.IH [OF dist])
    also have "\<dots> \<longleftrightarrow> (\<exists>k m n. map_of r k = Some m \<and> map_of xs k = Some n \<and> \<not> compatible m n)"
      using fresh step by (metis fun_upd_other option.distinct(1))
    also have "\<dots> \<longleftrightarrow> (\<exists>k m n'. map_of r k = Some m \<and> map_of (a # xs) k = Some n' \<and> \<not> compatible m n')"
      using a fresh ok by (simp split: if_splits) (metis option.distinct(1))
    finally show ?thesis .
  qed
qed

lemma broadcast_shape_error:
  "broadcast_shape S xs r = Inl e \<Longrightarrow> e = ValueError (Shapes_not_compatible S)"
proof (induction xs arbitrary: r)
  case Nil
  then show ?case by simp
next
  case (Cons a xs)
  obtain j n where a: "a = (j, n)" by (cases a)
  show ?case
  proof (cases "broadcast_axis S r (j, n)")
    case (Inl e')
    with Cons.prems a broadcast_axis_Inl(1) [OF Inl] show ?thesis by simp
  next
    case (Inr r1)
    with Cons.prems a Cons.IH [of r1] show ?thesis by simp
  qed
qed

lemma broadcast_shape_fresh:
  "distinct (map fst xs) \<Longrightarrow> fst ` set xs \<inter> fst ` set r = {} \<Longrightarrow>
   broadcast_shape S xs r = Inr (r @ xs)"
proof (induction xs arbitrary: r)
  case Nil
  then show ?case by simp
next
  case (Cons a xs)
  obtain j n where a: "a = (j, n)" by (cases a)
  from Cons.prems a have notin: "j \<notin> fst ` set r" by auto
  then have none: "map_of r j = None" by (simp add: map_of_eq_None_iff)
  have step: "broadcast_axis S r (j, n) = Inr (r @ [(j, n)])"
    using none dict_set_fresh [OF notin] by simp
  from Cons.prems a have "distinct (map fst xs)"
    and "fst ` set xs \<inter> fst ` set (r @ [(j, n)]) = {}"
    by auto
  from Cons.IH [OF this] step a show ?case by simp
qed

subsection \<open>Two shapes\<close>

lemma broadcast_first_pass:
  assumes "distinct (map fst A)"
  shows "broadcast_shape S (rev A) [] = Inr (rev A)"
  using broadcast_shape_fresh [of "rev A" "[]" S] assms by (simp add: rev_map [symmetric])

lemma broadcast_two_unfold:
  assumes "distinct (map fst A)"
  shows "broadcast_shapes [A, B] =
    (case broadcast_shape [A, B] (rev B) (rev A) of
       Inl e \<Rightarrow> Inl e | Inr r \<Rightarrow> Inr (reversed_dict r))"
  by (simp add: broadcast_shapes_def broadcast_first_pass [OF assms] split: sum.splits)

lemma broadcast_two_fails_iff:
  assumes A: "distinct (map fst A)" and B: "distinct (map fst B)"
  shows "isl (broadcast_shapes [A, B]) \<longleftrightarrow>
    (\<exists>k m n. map_of A k = Some m \<and> map_of B k = Some n \<and> \<not> compatible m n)"
proof -
  have dB: "distinct (map fst (rev B))" using B by (simp add: rev_map [symmetric])
  have "isl (broadcast_shapes [A, B]) = isl (broadcast_shape [A, B] (rev B) (rev A))"
    by (simp add: broadcast_two_unfold [OF A] split: sum.splits)
  also have "\<dots> \<longleftrightarrow> (\<exists>k m n. map_of (rev A) k = Some m \<and> map_of (rev B) k = Some n
      \<and> \<not> compatible m n)"
    by (rule broadcast_shape_fails_iff [OF dB])
  finally show ?thesis
    by (simp add: map_of_rev_distinct [OF A] map_of_rev_distinct [OF B])
qed

lemma broadcast_two_error:
  assumes "distinct (map fst A)" and "broadcast_shapes [A, B] = Inl e"
  shows "e = ValueError (Shapes_not_compatible [A, B])"
  using assms(2) broadcast_shape_error [of "[A, B]" "rev B" "rev A" e]
  by (simp add: broadcast_two_unfold [OF assms(1)] split: sum.splits)

lemma broadcast_two_lookup:
  assumes A: "distinct (map fst A)" and B: "distinct (map fst B)"
    and ok: "broadcast_shapes [A, B] = Inr r"
  shows "map_of r k =
     (case map_of B k of
        None \<Rightarrow> map_of A k
      | Some n \<Rightarrow> Some (case map_of A k of None \<Rightarrow> n | Some m \<Rightarrow> broadcast_size m n))"
proof -
  have dA: "distinct (map fst (rev A))" using A by (simp add: rev_map [symmetric])
  have dB: "distinct (map fst (rev B))" using B by (simp add: rev_map [symmetric])
  from ok obtain r2 where r2: "broadcast_shape [A, B] (rev B) (rev A) = Inr r2"
    and r: "r = reversed_dict r2"
    by (auto simp: broadcast_two_unfold [OF A] split: sum.splits)
  have d2: "distinct (map fst r2)" by (rule broadcast_shape_distinct [OF r2 dA])
  have "map_of r k = map_of r2 k"
    by (simp add: r reversed_dict_rev [OF d2] map_of_rev_distinct [OF d2])
  also note broadcast_shape_lookup [OF dB r2, of k]
  finally show ?thesis
    unfolding map_of_rev_distinct [OF A] map_of_rev_distinct [OF B] .
qed

lemma compatible_sym: "compatible m n = compatible n m"
  by (auto simp: compatible_def)

lemma size_of_two:
  assumes A: "distinct (map fst A)" and B: "distinct (map fst B)"
    and a: "map_of A k = Some a" and b: "map_of B k = Some b"
  shows "size_of (broadcast_shapes [A, B]) k =
     (if isl (broadcast_shapes [A, B]) then None else Some (broadcast_size a b))"
proof (cases "broadcast_shapes [A, B]")
  case (Inl e)
  then show ?thesis by (simp add: size_of_def)
next
  case (Inr r)
  from broadcast_two_lookup [OF A B Inr, of k] a b Inr show ?thesis
    by (simp add: size_of_def)
qed

text \<open>
  Claim C1. Let \<open>A\<close> and \<open>B\<close> be named shapes that both have the axis \<open>k\<close>, with sizes
  \<open>a\<close> and \<open>b\<close>. When \<open>a\<close> and \<open>b\<close> differ and neither is 1, \<open>broadcast_shapes\<close> raises
  the \<open>ValueError\<close> whose message holds the shapes of the call. Whenever the call returns,
  \<open>k\<close> has size \<open>a\<close> if \<open>a = b\<close>, and the size that is not 1 if exactly one of them is 1;
  the call does return when no shared axis has conflicting sizes. The size reported for
  \<open>k\<close> (none when the call raises) is the same for the call with \<open>A\<close> and \<open>B\<close> swapped.
\<close>

theorem broadcast_shared_axis:
  assumes A: "distinct (map fst A)" and B: "distinct (map fst B)"
    and a: "map_of A k = Some a" and b: "map_of B k = Some b"
  shows "(a \<noteq> b \<and> a \<noteq> 1 \<and> b \<noteq> 1 \<longrightarrow>
            broadcast_shapes [A, B] = Inl (ValueError (Shapes_not_compatible [A, B])))
       \<and> (\<forall>r. broadcast_shapes [A, B] = Inr r \<longrightarrow>
            (a = b \<longrightarrow> map_of r k = Some a) \<and>
            (a = 1 \<and> b \<noteq> 1 \<longrightarrow> map_of r k = Some b) \<and>
            (a \<noteq> 1 \<and> b = 1 \<longrightarrow> map_of r k = Some a))
       \<and> (conflicts A B = [] \<longrightarrow> (\<exists>r. broadcast_shapes [A, B] = Inr r))
       \<and> size_of (broadcast_shapes [A, B]) k = size_of (broadcast_shapes [B, A]) k"
proof (intro conjI impI allI)
  assume "a \<noteq> b \<and> a \<noteq> 1 \<and> b \<noteq> 1"
  then have "\<not> compatible a b" by (simp add: compatible_def)
  with a b have "isl (broadcast_shapes [A, B])"
    unfolding broadcast_two_fails_iff [OF A B] by blast
  then obtain e where e: "broadcast_shapes [A, B] = Inl e" by (cases "broadcast_shapes [A, B]") auto
  from broadcast_two_error [OF A e] e
  show "broadcast_shapes [A, B] = Inl (ValueError (Shapes_not_compatible [A, B]))" by simp
next
  fix r assume r: "broadcast_shapes [A, B] = Inr r"
  note look = broadcast_two_lookup [OF A B r, of k]
  { assume "a = b" with look a b show "map_of r k = Some a" by (simp add: broadcast_size_def) }
  { assume "a = 1 \<and> b \<noteq> 1" with look a b show "map_of r k = Some b"
      by (simp add: broadcast_size_def) }
  { assume "a \<noteq> 1 \<and> b = 1" with look a b show "map_of r k = Some a"
      by (simp add: broadcast_size_def) }
next
  assume none: "conflicts A B = []"
  have "\<not> isl (broadcast_shapes [A, B])"
  proof
    assume "isl (broadcast_shapes [A, B])"
    then obtain j m n where j: "map_of A j = Some m" "map_of B j = Some n" "\<not> compatible m n"
      unfolding broadcast_two_fails_iff [OF A B] by blast
    from j(1) have "j \<in> set (map fst A)" by (metis map_of_SomeD fst_conv image_eqI set_map)
    with j have "j \<in> set (conflicts A B)" by (simp add: conflicts_def)
    with none show False by simp
  qed
  then show "\<exists>r. broadcast_shapes [A, B] = Inr r" by (cases "broadcast_shapes [A, B]") auto
next
  have fails: "isl (broadcast_shapes [A, B]) = isl (broadcast_shapes [B, A])"
    unfolding broadcast_two_fails_iff [OF A B] broadcast_two_fails_iff [OF B A]
    by (metis compatible_sym)
  show "size_of (broadcast_shapes [A, B]) k = size_of (broadcast_shapes [B, A]) k"
  proof (cases "isl (broadcast_shapes [A, B])")
    case True
    with fails show ?thesis by (simp add: size_of_two [OF A B a b] size_of_two [OF B A b a])
  next
    case False
    then have "compatible a b"
      unfolding broadcast_two_fails_iff [OF A B] using a b by blast
    then have "broadcast_size a b = broadcast_size b a"
      by (auto simp: compatible_def broadcast_size_def)
    with False fails show ?thesis
      by (simp add: size_of_two [OF A B a b] size_of_two [OF B A b a])
  qed
qed

theorem broadcast_shared_axis_witness:
  "distinct (map fst [(''x'', 3::int), (''y'', 1)]) \<and> distinct (map fst [(''y'', 4::int), (''z'', 2)])
   \<and> map_of [(''x'', 3::int), (''y'', 1)] ''y'' = Some 1
   \<and> map_of [(''y'', 4::int), (''z'', 2)] ''y'' = Some 4
   \<and> conflicts [(''x'', 3), (''y'', 1)] [(''y'', 4), (''z'', 2)] = []
   \<and> size_of (broadcast_shapes [[(''x'', 3), (''y'', 1)], [(''y'', 4), (''z'', 2)]]) ''y'' = Some 4
   \<and> size_of (broadcast_shapes [[(''y'', 4), (''z'', 2)], [(''x'', 3), (''y'', 1)]]) ''y'' = Some 4"
  using broadcast_shared_axis [of "[(''x'', 3), (''y'', 1)]" "[(''y'', 4), (''z'', 2)]" "''y''" 1 4]
  by (simp add: size_of_def conflicts_def compatible_def broadcast_shapes_def reversed_dict_def)

text \<open>
  Claim C2, as stated: the shapes \<open>{"x": 3, "y": 1}\<close> and \<open>{"y": 4, "z": 2}\<close> broadcast
  to the ordered mapping with key sequence z, y, x. The code returns another order.
\<close>

theorem broadcast_example_order_counterexample:
  "broadcast_shapes [[(''x'', 3), (''y'', 1)], [(''y'', 4), (''z'', 2)]]
     \<noteq> Inr [(''z'', 2), (''y'', 4), (''x'', 3)]"
  by (simp add: broadcast_shapes_def reversed_dict_def)

text \<open>
  Claim C2, amended: the shapes \<open>{"x": 3, "y": 1}\<close> and \<open>{"y": 4, "z": 2}\<close>, in that
  order, broadcast to the ordered mapping with key sequence z, x, y and sizes 2, 3, 4; with
  the sizes 4 and 5 for \<open>"y"\<close> the call raises the \<open>ValueError\<close> that names the two shapes.
\<close>

theorem broadcast_example:
  "broadcast_shapes [[(''x'', 3), (''y'', 1)], [(''y'', 4), (''z'', 2)]]
     = Inr [(''z'', 2), (''x'', 3), (''y'', 4)]
   \<and> broadcast_shapes [[(''x'', 3), (''y'', 4)], [(''y'', 5), (''z'', 2)]]
     = Inl (ValueError (Shapes_not_compatible
         [[(''x'', 3), (''y'', 4)], [(''y'', 5), (''z'', 2)]]))"
  by (simp add: broadcast_shapes_def reversed_dict_def)

subsection \<open>A single shape\<close>

lemma broadcast_loop_distinct:
  "broadcast_loop S ss r = Inr r' \<Longrightarrow> distinct (map fst r) \<Longrightarrow> distinct (map fst r')"
proof (induction ss arbitrary: r)
  case Nil
  then show ?case by simp
next
  case (Cons s ss)
  from Cons.prems(1) obtain r1 where r1: "broadcast_shape S (rev s) r = Inr r1"
    and rest: "broadcast_loop S ss r1 = Inr r'"
    by (auto split: sum.splits)
  from Cons.IH [OF rest broadcast_shape_distinct [OF r1 Cons.prems(2)]] show ?case .
qed

lemma broadcast_shapes_distinct:
  assumes "broadcast_shapes shapes = Inr r"
  shows "distinct (map fst r)"
proof -
  from assms obtain r0 where r0: "broadcast_loop shapes shapes [] = Inr r0"
    and r: "r = reversed_dict r0"
    by (auto simp: broadcast_shapes_def split: sum.splits)
  from broadcast_loop_distinct [OF r0] have d0: "distinct (map fst r0)" by simp
  with r show ?thesis by (simp add: reversed_dict_rev rev_map [symmetric])
qed

lemma broadcast_one:
  assumes "distinct (map fst S)"
  shows "broadcast_shapes [S] = Inr S"
  by (simp add: broadcast_shapes_def broadcast_first_pass [OF assms] reversed_dict_rev assms
        rev_map [symmetric])

text \<open>
  Claim C9. For a named shape \<open>S\<close> with unique axis names, \<open>broadcast_shapes(S)\<close> returns
  \<open>S\<close> itself: the same axes with the same sizes in the same order. Broadcasting any
  result of \<open>broadcast_shapes\<close> again, alone, returns that result.
\<close>

theorem broadcast_single_shape:
  "(distinct (map fst S) \<longrightarrow> broadcast_shapes [S] = Inr S)
   \<and> (\<forall>r. broadcast_shapes shapes = Inr r \<longrightarrow> broadcast_shapes [r] = Inr r)"
  using broadcast_one broadcast_shapes_distinct by blast

theorem broadcast_single_shape_witness:
  "distinct (map fst [(''t'', 5::int), (''x'', 3), (''y'', 1)])
   \<and> broadcast_shapes [[(''t'', 5), (''x'', 3), (''y'', 1)]] = Inr [(''t'', 5), (''x'', 3), (''y'', 1)]
   \<and> broadcast_shapes [[(''x'', 3), (''y'', 1)], [(''y'', 4), (''z'', 2)]]
       = Inr [(''z'', 2), (''x'', 3), (''y'', 4)]
   \<and> broadcast_shapes [[(''z'', 2), (''x'', 3), (''y'', 4)]] = Inr [(''z'', 2), (''x'', 3), (''y'', 4)]"
proof -
  have d: "distinct (map fst [(''t'', 5::int), (''x'', 3), (''y'', 1)])" by simp
  have e: "broadcast_shapes [[(''x'', 3), (''y'', 1)], [(''y'', 4), (''z'', 2)]]
       = Inr [(''z'', 2), (''x'', 3), (''y'', 4)]"
    by (simp add: broadcast_shapes_def reversed_dict_def)
  note inst = broadcast_single_shape [of "[(''t'', 5), (''x'', 3), (''y'', 1)]"
      "[[(''x'', 3), (''y'', 1)], [(''y'', 4), (''z'', 2)]]"]
  from inst d e show ?thesis by blast
qed

subsection \<open>The winning type\<close>

lemma find_filter: "find P (filter Q xs) = find (\<lambda>x. Q x \<and> P x) xs"
  by (induction xs) auto

lemma first_maximal_above:
  assumes "filter (\<lambda>d. t < priority d) cs \<noteq> []"
  shows "first_maximal priority (filter (\<lambda>d. t < priority d) cs)
       = find (\<lambda>c. list_all (\<lambda>d. priority d \<le> priority c) cs) cs"
proof -
  from assms obtain y where y: "y \<in> set cs" "t < priority y"
    by (auto simp: filter_empty_conv)
  have "first_maximal priority (filter (\<lambda>d. t < priority d) cs)
      = find (\<lambda>c. t < priority c \<and>
           list_all (\<lambda>d. priority d \<le> priority c) (filter (\<lambda>d. t < priority d) cs)) cs"
    by (simp add: first_maximal_def find_filter)
  also have "\<dots> = find (\<lambda>c. list_all (\<lambda>d. priority d \<le> priority c) cs) cs"
  proof (rule find_cong [OF refl])
    fix c assume "c \<in> set cs"
    show "(t < priority c \<and>
        list_all (\<lambda>d. priority d \<le> priority c) (filter (\<lambda>d. t < priority d) cs))
      = list_all (\<lambda>d. priority d \<le> priority c) cs"
      using y by (fastforce simp: list_all_iff)
  qed
  finally show ?thesis .
qed

lemma first_maximal_Some:
  assumes "cs \<noteq> []"
  shows "\<exists>c. first_maximal priority cs = Some c"
proof -
  have "finite (priority ` set cs)" "priority ` set cs \<noteq> {}" using assms by auto
  then have "Max (priority ` set cs) \<in> priority ` set cs" by (rule Max_in)
  then obtain c where c: "c \<in> set cs" "priority c = Max (priority ` set cs)" by auto
  then have "list_all (\<lambda>d. priority d \<le> priority c) cs"
    by (simp add: list_all_iff)
  with c(1) have "find (\<lambda>c. list_all (\<lambda>d. priority d \<le> priority c) cs) cs \<noteq> None"
    by (auto simp: find_None_iff)
  then show ?thesis by (auto simp: first_maximal_def)
qed

lemma first_maximal_Cons:
  "first_maximal priority (c # cs) =
     (case first_maximal priority (filter (\<lambda>d. priority c < priority d) cs) of
        None \<Rightarrow> Some c | Some d \<Rightarrow> Some d)"
proof (cases "filter (\<lambda>d. priority c < priority d) cs = []")
  case True
  then have "list_all (\<lambda>d. priority d \<le> priority c) cs"
    by (auto simp: list_all_iff filter_empty_conv)
  with True show ?thesis by (simp add: first_maximal_def)
next
  case False
  then obtain y where y: "y \<in> set cs" "priority c < priority y"
    by (auto simp: filter_empty_conv)
  then have notc: "\<not> list_all (\<lambda>d. priority d \<le> priority c) cs"
    by (auto simp: list_all_iff not_le)
  have "first_maximal priority (c # cs)
      = find (\<lambda>x. priority c \<le> priority x \<and> list_all (\<lambda>d. priority d \<le> priority x) cs) cs"
    using notc by (simp add: first_maximal_def)
  also have "\<dots> = find (\<lambda>x. list_all (\<lambda>d. priority d \<le> priority x) cs) cs"
  proof (rule find_cong [OF refl])
    fix x assume "x \<in> set cs"
    show "(priority c \<le> priority x \<and> list_all (\<lambda>d. priority d \<le> priority x) cs)
        = list_all (\<lambda>d. priority d \<le> priority x) cs"
      using y by (fastforce simp: list_all_iff)
  qed
  also have "\<dots> = first_maximal priority (filter (\<lambda>d. priority c < priority d) cs)"
    by (rule first_maximal_above [OF False, symmetric])
  finally show ?thesis
    using first_maximal_Some [OF False, of priority] by auto
qed

lemma filter_above_twice:
  "t < u \<Longrightarrow> filter (\<lambda>d. (t::real) < priority d \<and> u < priority d) cs
     = filter (\<lambda>d. u < priority d) cs"
  by (induction cs) auto

lemma type_array_loop_eq:
  "type_array_loop priority values cls priority_max =
     (case first_maximal priority (filter (\<lambda>c. priority_max < priority c) (named_types values)) of
        None \<Rightarrow> cls | Some c \<Rightarrow> Some c)"
proof (induction priority "values" cls priority_max rule: type_array_loop.induct)
  case (1 priority cls priority_max)
  then show ?case by (simp add: first_maximal_def)
next
  case (2 priority v "values" cls priority_max)
  then show ?case by simp
next
  case (3 priority cls_tmp "values" cls priority_max)
  show ?case
  proof (cases "priority cls_tmp > priority_max")
    case True
    with 3 show ?thesis
      by (simp add: first_maximal_Cons filter_above_twice split: option.splits)
  next
    case False
    with 3 show ?thesis by simp
  qed
qed

lemma type_array_eq:
  "type_array priority values =
     first_maximal priority (filter (\<lambda>c. 0 < priority c) (named_types values))"
  by (simp add: type_array_def type_array_loop_eq split: option.splits)

text \<open>
  Claim C7, amended. When some named-array operand has a priority above 0, \<open>type_array\<close>
  returns the explicit array class of the first operand, in call order, whose priority is the
  highest among the named-array operands.
\<close>

theorem type_array_highest_priority:
  assumes "list_ex (\<lambda>c. 0 < priority c) (named_types values)"
  shows "type_array priority values = first_maximal priority (named_types values)
       \<and> (\<exists>c. type_array priority values = Some c)"
proof -
  from assms have ne: "filter (\<lambda>c. 0 < priority c) (named_types values) \<noteq> []"
    by (auto simp: list_ex_iff filter_empty_conv)
  have "type_array priority values = first_maximal priority (named_types values)"
    unfolding type_array_eq first_maximal_above [OF ne] by (simp add: first_maximal_def)
  moreover from first_maximal_Some [OF ne] have "\<exists>c. type_array priority values = Some c"
    by (simp add: type_array_eq)
  ultimately show ?thesis by simp
qed

theorem type_array_highest_priority_witness:
  "list_ex (\<lambda>c. 0 < example_priority c)
     (named_types [Named ''ScalarArray'', Plain (PyInt 2), Named ''Cartesian2dVectorArray'',
        Named ''Cartesian3dVectorArray''])
   \<and> type_array example_priority
        [Named ''ScalarArray'', Plain (PyInt 2), Named ''Cartesian2dVectorArray'',
         Named ''Cartesian3dVectorArray'']
      = Some ''Cartesian2dVectorArray''"
  using type_array_highest_priority [of example_priority
     "[Named ''ScalarArray'', Plain (PyInt 2), Named ''Cartesian2dVectorArray'',
        Named ''Cartesian3dVectorArray'']"]
  by (simp add: first_maximal_def)

text \<open>
  Claim C7, as stated, for every sequence of operands: with a single named array whose
  class has priority 0 the highest priority present is that of \<open>ScalarArray\<close>, and
  \<open>type_array\<close> returns \<open>None\<close>.
\<close>

theorem type_array_zero_priority_counterexample:
  "type_array example_priority [Named ''ScalarArray'', Plain (PyFloat 1)] = None
   \<and> first_maximal example_priority (named_types [Named ''ScalarArray'', Plain (PyFloat 1)])
       = Some ''ScalarArray''"
  by (simp add: type_array_def first_maximal_def)

text \<open>
  Claim C10. When no operand is a named array, \<open>type_array\<close> returns \<open>None\<close>; it
  neither raises nor returns a class.
\<close>

theorem type_array_no_named_array:
  assumes "named_types values = []"
  shows "type_array priority values = None"
  using assms by (simp add: type_array_eq first_maximal_def)

theorem type_array_no_named_array_witness:
  "named_types [Plain (PyBool True), Plain (PyInt 3), Plain (PyFloat 2.5), Plain (PyComplex \<i>),
      Plain (NDArray [1, 2]), Plain (Quantity [1] ''mm'')] = ([] :: string list)
   \<and> type_array example_priority
       [Plain (PyBool True), Plain (PyInt 3), Plain (PyFloat 2.5), Plain (PyComplex \<i>),
        Plain (NDArray [1, 2]), Plain (Quantity [1] ''mm'')] = None"
  using type_array_no_named_array [of
      "[Plain (PyBool True), Plain (PyInt 3), Plain (PyFloat 2.5), Plain (PyComplex \<i>),
        Plain (NDArray [1, 2]), Plain (Quantity [1] ''mm'')]" example_priority]
  by simp

subsection \<open>Indexing dispatch\<close>

lemma getitem_dict_loop_declined:
  "\<forall>b \<in> set (array_subitems d). getitem_reversed b self item = Inr NotImplemented \<Longrightarrow>
   getitem_dict_loop getitem_reversed self item d = Inr NotImplemented"
  by (induction d rule: array_subitems.induct) auto

lemma getitem_dict_loop_first:
  "i < length (array_subitems d) \<Longrightarrow>
   \<forall>j < i. getitem_reversed (array_subitems d ! j) self item = Inr NotImplemented \<Longrightarrow>
   getitem_reversed (array_subitems d ! i) self item = Inr (Result r) \<Longrightarrow>
   getitem_dict_loop getitem_reversed self item d = Inr (Result r)"
proof (induction d arbitrary: i rule: array_subitems.induct)
  case 1
  then show ?case by simp
next
  case (2 ax b rest)
  show ?case
  proof (cases i)
    case 0
    with 2(4) show ?thesis by simp
  next
    case (Suc i')
    with 2(3) have head: "getitem_reversed b self item = Inr NotImplemented" by auto
    from Suc 2(2) have len: "i' < length (array_subitems rest)" by simp
    from Suc 2(3) have before:
      "\<forall>j < i'. getitem_reversed (array_subitems rest ! j) self item = Inr NotImplemented"
      by auto
    from Suc 2(4) have at: "getitem_reversed (array_subitems rest ! i') self item = Inr (Result r)"
      by simp
    from "2.IH" [OF len before at] head show ?thesis by simp
  qed
next
  case (3 ax n rest)
  then show ?case by simp
next
  case (4 ax lo hi st rest)
  then show ?case by simp
qed

lemma getitem_reversed_first:
  assumes "i < length (responders item)"
    and "\<forall>j < i. getitem_reversed (responders item ! j) self item = Inr NotImplemented"
    and "getitem_reversed (responders item ! i) self item = Inr (Result r)"
    and "getitem_own self item = Inr NotImplemented"
  shows "getitem getitem_own getitem_reversed type_name self item = Inr r"
proof (cases item)
  case (ItemDict d)
  with assms(1-3) have "getitem_dict_loop getitem_reversed self item d = Inr (Result r)"
    by (intro getitem_dict_loop_first [of i]) simp_all
  with ItemDict assms(4) show ?thesis by (simp add: getitem_def)
next
  case (ItemArray b)
  with assms show ?thesis by (simp add: getitem_def)
next
  case ItemOther
  with assms(1) show ?thesis by simp
qed

lemma getitem_all_declined:
  assumes "\<forall>b \<in> set (responders item). getitem_reversed b self item = Inr NotImplemented"
    and "getitem_own self item = Inr NotImplemented"
  shows "getitem getitem_own getitem_reversed type_name self item
       = Inl (ValueError (Item_not_supported (type_name self)))"
proof (cases item)
  case (ItemDict d)
  with assms(1) have "getitem_dict_loop getitem_reversed self item d = Inr NotImplemented"
    by (intro getitem_dict_loop_declined) simp
  with ItemDict assms(2) show ?thesis by (simp add: getitem_def)
next
  case (ItemArray b)
  with assms show ?thesis by (simp add: getitem_def)
next
  case ItemOther
  with assms(2) show ?thesis by (simp add: getitem_def)
qed

text \<open>
  Claim C3, as stated: when every handler declines, indexing fails with a type error. On
  an item whose only sub-item array declines, like the target itself, the exception raised
  is a \<open>ValueError\<close>, not a \<open>TypeError\<close>.
\<close>

theorem getitem_error_class_counterexample:
  "declining_own ''a'' (ItemDict [(''x'', ArrayIndex ''b'')]) = Inr NotImplemented
   \<and> declining_reversed ''b'' ''a'' (ItemDict [(''x'', ArrayIndex ''b'')]) = Inr NotImplemented
   \<and> getitem declining_own declining_reversed class_of ''a'' (ItemDict [(''x'', ArrayIndex ''b'')])
       = Inl (ValueError (Item_not_supported ''ScalarArray''))
   \<and> \<not> raised_TypeError
         (getitem declining_own declining_reversed class_of ''a'' (ItemDict [(''x'', ArrayIndex ''b'')]))"
  by (simp add: getitem_def declining_own_def declining_reversed_def class_of_def
      raised_TypeError_def)

text \<open>
  Claim C3, amended. \<open>a[item]\<close> first calls \<open>a._getitem(item)\<close> and returns its result if
  that is not \<open>NotImplemented\<close>. Otherwise it calls, in item order, the \<open>_getitem_reversed\<close>
  of each sub-item that is a named array (of the item itself when the item is one named
  array) and returns the first result that is not \<open>NotImplemented\<close>. When every handler
  declines, it raises a \<open>ValueError\<close> whose message names the type of the target.
\<close>

theorem getitem_dispatch:
  "(getitem_own self item = Inr (Result r) \<longrightarrow>
      getitem getitem_own getitem_reversed type_name self item = Inr r)
   \<and> (getitem_own self item = Inr NotImplemented \<longrightarrow>
        (\<forall>i < length (responders item).
           (\<forall>j < i. getitem_reversed (responders item ! j) self item = Inr NotImplemented) \<and>
           getitem_reversed (responders item ! i) self item = Inr (Result r) \<longrightarrow>
           getitem getitem_own getitem_reversed type_name self item = Inr r)
      \<and> ((\<forall>b \<in> set (responders item). getitem_reversed b self item = Inr NotImplemented) \<longrightarrow>
           getitem getitem_own getitem_reversed type_name self item
             = Inl (ValueError (Item_not_supported (type_name self)))))"
proof (intro conjI impI allI)
  assume "getitem_own self item = Inr (Result r)"
  then show "getitem getitem_own getitem_reversed type_name self item = Inr r"
    by (simp add: getitem_def)
next
  fix i
  assume own: "getitem_own self item = Inr NotImplemented"
    and len: "i < length (responders item)"
    and ans: "(\<forall>j < i. getitem_reversed (responders item ! j) self item = Inr NotImplemented) \<and>
      getitem_reversed (responders item ! i) self item = Inr (Result r)"
  from ans have before:
      "\<forall>j < i. getitem_reversed (responders item ! j) self item = Inr NotImplemented"
    and at: "getitem_reversed (responders item ! i) self item = Inr (Result r)"
    by simp_all
  show "getitem getitem_own getitem_reversed type_name self item = Inr r"
    by (rule getitem_reversed_first
        [of i item getitem_reversed self r getitem_own type_name, OF len before at own])
next
  assume own: "getitem_own self item = Inr NotImplemented"
    and all: "\<forall>b \<in> set (responders item). getitem_reversed b self item = Inr NotImplemented"
  show "getitem getitem_own getitem_reversed type_name self item
      = Inl (ValueError (Item_not_supported (type_name self)))"
    by (rule getitem_all_declined
        [of item getitem_reversed self getitem_own type_name, OF all own])
qed

theorem getitem_dispatch_witness:
  "declining_own ''a''
      (ItemDict [(''x'', IntIndex 0), (''y'', ArrayIndex ''idx''), (''z'', ArrayIndex ''mask'')])
     = Inr NotImplemented
   \<and> responders
      (ItemDict [(''x'', IntIndex 0), (''y'', ArrayIndex ''idx''), (''z'', ArrayIndex ''mask'')])
     = [''idx'', ''mask'']
   \<and> answering_reversed ''idx'' ''a''
      (ItemDict [(''x'', IntIndex 0), (''y'', ArrayIndex ''idx''), (''z'', ArrayIndex ''mask'')])
     = Inr NotImplemented
   \<and> answering_reversed ''mask'' ''a''
      (ItemDict [(''x'', IntIndex 0), (''y'', ArrayIndex ''idx''), (''z'', ArrayIndex ''mask'')])
     = Inr (Result 7)
   \<and> getitem declining_own answering_reversed class_of ''a''
      (ItemDict [(''x'', IntIndex 0), (''y'', ArrayIndex ''idx''), (''z'', ArrayIndex ''mask'')])
     = Inr 7
   \<and> getitem declining_own declining_reversed class_of ''a'' (ItemArray ''b'')
     = Inl (ValueError (Item_not_supported ''ScalarArray''))"
  using getitem_dispatch [of declining_own "''a''"
      "ItemDict [(''x'', IntIndex 0), (''y'', ArrayIndex ''idx''), (''z'', ArrayIndex ''mask'')]"
      7 answering_reversed class_of]
    getitem_dispatch [of declining_own "''a''" "ItemArray ''b''" 7 declining_reversed class_of]
  by (simp add: declining_own_def declining_reversed_def answering_reversed_def class_of_def
      getitem_def)

subsection \<open>Linear interpolation along one axis\<close>


lemma lower_neighbor_clamped:
  assumes "map_of shape axis = Some n"
  shows "lower_neighbor shape axis x = Inr (clamped_floor n x)"
  using assms by (simp add: lower_neighbor_def shape_lookup_def clamped_floor_def py_int_def)


lemma clamped_floor_bounds:
  assumes "2 \<le> n"
  shows "0 \<le> clamped_floor n x" and "clamped_floor n x + 1 \<le> n - 1"
proof -
  show "0 \<le> clamped_floor n x"
    using assms by (auto simp: clamped_floor_def)
  show "clamped_floor n x + 1 \<le> n - 1"
  proof (cases "x < 0 \<or> real_of_int (n - 1) \<le> x")
    case True
    with assms show ?thesis by (auto simp: clamped_floor_def)
  next
    case False
    then have "x < real_of_int (n - 1)" by simp
    then have "\<lfloor>x\<rfloor> < n - 1" by (simp add: floor_less_iff)
    with False show ?thesis by (simp add: clamped_floor_def)
  qed
qed

lemma interp_linear_1d:
  assumes "2 \<le> length data"
  shows "interp_linear ar (explicit_1d axis data) [(axis, x)] =
     Inr (add ar (data ! nat (clamped_floor (int (length data)) x))
            (mul ar (weight ar x (clamped_floor (int (length data)) x))
               (sub ar (data ! nat (clamped_floor (int (length data)) x + 1))
                  (data ! nat (clamped_floor (int (length data)) x)))))"
proof -
  define n where "n = int (length data)"
  define x0 where "x0 = clamped_floor n x"
  have n2: "2 \<le> n" using assms by (simp add: n_def)
  have lo: "0 \<le> x0" and hi: "x0 + 1 \<le> n - 1"
    using clamped_floor_bounds [OF n2, of x] by (simp_all add: x0_def)
  have nb: "lower_neighbor [(axis, n)] axis x = Inr x0"
    by (simp add: lower_neighbor_clamped x0_def)
  have e0: "element_at data x0 = Inr (data ! nat x0)"
    using lo hi by (simp add: element_at_def n_def)
  have e1: "element_at data (x0 + 1) = Inr (data ! nat (x0 + 1))"
    using lo hi by (simp add: element_at_def n_def)
  have ne: "data \<noteq> []" using assms by auto
  show ?thesis
    unfolding n_def [symmetric] x0_def [symmetric]
    using nb e0 e1 ne
    by (simp add: interp_linear_def explicit_1d_def indices_def n_def [symmetric])
qed

lemma clamped_floor_grid:
  assumes "2 \<le> n" and "0 \<le> k" and "k \<le> n - 1"
  shows "clamped_floor n (real_of_int k) = (if k = n - 1 then n - 2 else k)"
  using assms by (simp add: clamped_floor_def)

lemma exact_arithmetic_at_grid: "exact_at_grid exact_arithmetic"
  by (simp add: exact_at_grid_def exact_arithmetic_def)

subsection \<open>Rounding to binary64\<close>

lemma floor_log2_eq:
  assumes "2 ^ n \<le> \<bar>x\<bar>" and "\<bar>x\<bar> < 2 ^ Suc n"
  shows "\<lfloor>log 2 \<bar>x\<bar>\<rfloor> = int n"
proof -
  have pos: "0 < \<bar>x\<bar>" using assms(1) by (smt (verit) zero_less_power)
  have "real n \<le> log 2 \<bar>x\<bar>"
    using assms(1) pos by (simp add: le_log_iff powr_realpow)
  moreover have "log 2 \<bar>x\<bar> < real n + 1"
    using assms(2) pos by (simp add: log_less_iff powr_realpow powr_add)
  ultimately show ?thesis by (simp add: floor_eq_iff)
qed

lemma round_nearest_normal:
  assumes "2 ^ n \<le> \<bar>x\<bar>" and "\<bar>x\<bar> < 2 ^ Suc n" and "n \<le> 52"
  shows "round_nearest x = real_of_int (round_to_even (x * 2 ^ (52 - n))) / 2 ^ (52 - n)"
proof -
  have nz: "x \<noteq> 0" using assms(1) by (smt (verit) zero_less_power)
  have e: "\<lfloor>log 2 \<bar>x\<bar>\<rfloor> = int n" by (rule floor_log2_eq [OF assms(1,2)])
  have "real_of_int (int n - 52) = - real (52 - n)" using assms(3) by simp
  then have "2 powr real_of_int (int n - 52) = 1 / 2 ^ (52 - n)"
    by (simp only: powr_minus_divide powr_realpow [of 2, simplified])
  then show ?thesis using nz e by (simp add: round_nearest_def max_def)
qed

lemma round_nearest_large:
  assumes "2 ^ n \<le> \<bar>x\<bar>" and "\<bar>x\<bar> < 2 ^ Suc n" and "52 \<le> n"
  shows "round_nearest x = real_of_int (round_to_even (x / 2 ^ (n - 52))) * 2 ^ (n - 52)"
proof -
  have nz: "x \<noteq> 0" using assms(1) by (smt (verit) zero_less_power)
  have e: "\<lfloor>log 2 \<bar>x\<bar>\<rfloor> = int n" by (rule floor_log2_eq [OF assms(1,2)])
  have "real_of_int (int n - 52) = real (n - 52)" using assms(3) by simp
  then have "2 powr real_of_int (int n - 52) = 2 ^ (n - 52)"
    by (simp only: powr_realpow [of 2, simplified])
  then show ?thesis using nz e by (simp add: round_nearest_def max_def)
qed

lemma to_binary64_zero: "to_binary64 0 = Finite 0"
  by (simp add: to_binary64_def round_nearest_def)

lemma to_binary64_one: "to_binary64 1 = Finite 1"
  using round_nearest_normal [of 0 1] by (simp add: to_binary64_def round_to_even_def)

lemma to_binary64_tie: "to_binary64 (- 9999999999999999) = Finite (- 10000000000000000)"
  using round_nearest_large [of 53 "- 9999999999999999"]
  by (simp add: to_binary64_def round_to_even_def)

lemma to_binary64_representable:
  "to_binary64 (- 10000000000000000) = Finite (- 10000000000000000)"
  using round_nearest_large [of 53 "- 10000000000000000"]
  by (simp add: to_binary64_def round_to_even_def)

subsection \<open>Grid points and the clamp\<close>

text \<open>
  Claim C4, as stated: interpolation at an integer coordinate returns exactly the element.
  For the \<open>float64\<close> array \<open>[1e16, 1.0]\<close> and \<open>k = 1 = n - 1\<close> the neighbours are 0 and 1
  and the weight is 1; \<open>1.0 - 1e16\<close> rounds to \<open>-1e16\<close>, so the result is \<open>0.0\<close> and the
  element is \<open>1.0\<close>.
\<close>

theorem interp_linear_float_counterexample:
  "interp_linear binary64_arithmetic
      (explicit_1d ''i'' [Finite 10000000000000000, Finite 1]) [(''i'', 1)] = Inr (Finite 0)
   \<and> getitem_at (explicit_1d ''i'' [Finite 10000000000000000, Finite 1]) [(''i'', At 1)]
       = Inr (Finite 1)"
  by (simp add: interp_linear_def explicit_1d_def indices_def lower_neighbor_def
      shape_lookup_def element_at_def binary64_arithmetic_def binary64_sub_def
      to_binary64_zero to_binary64_one to_binary64_tie to_binary64_representable)

text \<open>
  Claim C4, amended. For an explicit array \<open>A\<close> over one axis of size \<open>n \<ge> 2\<close> and an
  integer \<open>k\<close> with \<open>0 \<le> k \<le> n - 1\<close>, interpolation at the coordinate \<open>k\<close> returns
  \<open>A[x0] + (k - x0) * (A[x0 + 1] - A[x0])\<close>, evaluated in the arithmetic of the array,
  where the lower neighbour \<open>x0\<close> is \<open>k\<close> and the weight \<open>k - x0\<close> is 0 for \<open>k \<le> n - 2\<close>, and
  \<open>x0\<close> is the clamped \<open>n - 2\<close> and the weight is 1 for \<open>k = n - 1\<close>. In an arithmetic that is
  exact at the grid points, and exact arithmetic is, this is exactly the element \<open>A[k]\<close>.
\<close>

theorem interp_linear_grid_point:
  fixes data :: "'v list" and ar :: "('w, 'v) arithmetic"
  assumes "2 \<le> length data" and "0 \<le> k" and "k \<le> int (length data) - 1"
  shows "(let x0 = (if k = int (length data) - 1 then int (length data) - 2 else k) in
            lower_neighbor (shape_of (explicit_1d axis data)) axis (real_of_int k) = Inr x0
          \<and> interp_linear ar (explicit_1d axis data) [(axis, real_of_int k)]
              = Inr (add ar (data ! nat x0)
                       (mul ar (weight ar (real_of_int k) x0)
                          (sub ar (data ! nat (x0 + 1)) (data ! nat x0))))
          \<and> weight (exact_arithmetic :: (real, real) arithmetic) (real_of_int k) x0
              = (if k = int (length data) - 1 then 1 else 0))
       \<and> (exact_at_grid ar \<longrightarrow>
            interp_linear ar (explicit_1d axis data) [(axis, real_of_int k)]
              = getitem_at (explicit_1d axis data) [(axis, At k)])
       \<and> getitem_at (explicit_1d axis data) [(axis, At k)] = Inr (data ! nat k)
       \<and> exact_at_grid (exact_arithmetic :: (real, 'r::real_vector) arithmetic)"
proof -
  define n where "n = int (length data)"
  define x0 where "x0 = (if k = n - 1 then n - 2 else k)"
  have n2: "2 \<le> n" using assms(1) by (simp add: n_def)
  have cf: "clamped_floor n (real_of_int k) = x0"
    unfolding x0_def using n2 assms(2,3) by (intro clamped_floor_grid) (simp_all add: n_def)
  have nb: "lower_neighbor (shape_of (explicit_1d axis data)) axis (real_of_int k) = Inr x0"
    using lower_neighbor_clamped [of "[(axis, n)]" axis n "real_of_int k"] cf
    by (simp add: explicit_1d_def n_def)
  have res: "interp_linear ar (explicit_1d axis data) [(axis, real_of_int k)]
      = Inr (add ar (data ! nat x0)
               (mul ar (weight ar (real_of_int k) x0)
                  (sub ar (data ! nat (x0 + 1)) (data ! nat x0))))"
    using interp_linear_1d [OF assms(1), of ar axis "real_of_int k"] cf
    by (simp add: n_def)
  have w: "weight (exact_arithmetic :: (real, real) arithmetic) (real_of_int k) x0
      = (if k = n - 1 then 1 else 0)"
    by (simp add: exact_arithmetic_def x0_def)
  have at: "getitem_at (explicit_1d axis data) [(axis, At k)] = Inr (data ! nat k)"
    using assms by (simp add: explicit_1d_def element_at_def)
  have ex: "interp_linear ar (explicit_1d axis data) [(axis, real_of_int k)] = Inr (data ! nat k)"
    if grid: "exact_at_grid ar"
  proof (cases "k = n - 1")
    case True
    then have k: "real_of_int k = real_of_int (x0 + 1)" and idx: "nat (x0 + 1) = nat k"
      by (simp_all add: x0_def)
    from grid have one:
      "add ar y0 (mul ar (weight ar (real_of_int (x0 + 1)) x0) (sub ar y1 y0)) = y1"
      for y0 y1
      unfolding exact_at_grid_def by blast
    show ?thesis unfolding res by (simp only: k idx one)
  next
    case False
    then have k: "x0 = k" by (simp add: x0_def)
    from grid have zero:
      "add ar y0 (mul ar (weight ar (real_of_int k) k) (sub ar y1 y0)) = y0"
      for y0 y1
      unfolding exact_at_grid_def by blast
    show ?thesis unfolding res by (simp only: k zero)
  qed
  show ?thesis
    unfolding Let_def n_def [symmetric] x0_def [symmetric]
    using nb res w at ex exact_arithmetic_at_grid by simp
qed

theorem interp_linear_grid_point_witness:
  "2 \<le> length [10, 20, 40 :: real] \<and> (0::int) \<le> 2 \<and> (2::int) \<le> int (length [10, 20, 40 :: real]) - 1
   \<and> exact_at_grid (exact_arithmetic :: (real, real) arithmetic)
   \<and> lower_neighbor (shape_of (explicit_1d ''i'' [10, 20, 40 :: real])) ''i'' 2 = Inr 1
   \<and> interp_linear exact_arithmetic (explicit_1d ''i'' [10, 20, 40 :: real]) [(''i'', 2)] = Inr 40"
  using interp_linear_grid_point [of "[10, 20, 40 :: real]" 2 "''i''"
      "exact_arithmetic :: (real, real) arithmetic", where ?'r = real]
  by (simp add: explicit_1d_def element_at_def exact_arithmetic_def)




subsection \<open>Seeds\<close>

lemma post_init_seed: "seed (fst (post_init randint self w)) \<noteq> None"
  by (simp add: post_init_def split: option.splits)

lemma post_init_explicit: "seed self = Some s \<Longrightarrow> post_init randint self w = (self, w)"
  by (simp add: post_init_def)

lemma rng_seeded:
  "seed self = Some s \<Longrightarrow>
   rng np self w = (if s < 0 then Inl (ValueError (Negative_seed s)) else Inr (seeded_rng np s), w)"
  by (simp add: rng_def default_rng_def)

lemma materialize_seeded:
  assumes "seed c \<noteq> None"
  shows "materialize np draw c w1 = (fst (materialize np draw c w2), w1)"
proof -
  from assms obtain s where "seed c = Some s" by auto
  then show ?thesis by (simp add: materialize_def rng_seeded)
qed

lemma random_uniform_seeded:
  "random_uniform np sm st sp sr (Some s) w1
     = (fst (random_uniform np sm st sp sr (Some s) w2), w1)"
  by (simp add: random_uniform_def uniform_draw_def default_rng_def split: sum.splits prod.splits)

lemma array_uniform_seeded:
  assumes "seed c \<noteq> None"
  shows "array_uniform np sm c w1 = (fst (array_uniform np sm c w2), w1)"
proof -
  from assms obtain s where "seed c = Some s" by auto
  then show ?thesis
    unfolding array_uniform_def using random_uniform_seeded [of np sm _ _ _ s w1 w2] by simp
qed

text \<open>
  Claim C6. For every random-carrying class, construction replaces a seed that is \<open>None\<close>
  by one integer drawn from \<open>random.randint(0, 10 ** 12)\<close> and keeps an explicit seed
  without drawing; afterwards the seed is never \<open>None\<close>, and running the substitution again
  changes nothing and draws nothing. The generator of \<open>_rng\<close> is a function of the stored
  seed (a negative seed raises \<open>ValueError\<close>). Materializing a constructed object, of any
  class through its draw from \<open>_rng\<close> and of the uniform sample through \<open>random_uniform\<close>,
  gives a result that does not depend on the ambient state and leaves that state as it
  was; two objects constructed with the same explicit seed and the same parameters
  materialize the same result on every access.
\<close>

theorem random_seed_determinism:
  fixes self c d :: "'z random_mixin_scheme" and a b :: "'n uniform_random_sample"
  shows
  "(seed self = None \<longrightarrow>
      post_init randint self w
        = (self\<lparr>seed := Some (fst (randint 0 (10 ^ 12) w))\<rparr>, snd (randint 0 (10 ^ 12) w)))
   \<and> (seed self \<noteq> None \<longrightarrow> post_init randint self w = (self, w))
   \<and> seed (fst (post_init randint self w)) \<noteq> None
   \<and> post_init randint (fst (post_init randint self w)) w' = (fst (post_init randint self w), w')
   \<and> (\<forall>s. seed self = Some s \<longrightarrow>
        rng np self w
          = (if s < 0 then Inl (ValueError (Negative_seed s)) else Inr (seeded_rng np s), w))
   \<and> materialize np draw (fst (post_init randint self w)) w1
        = (fst (materialize np draw (fst (post_init randint self w)) w2), w1)
   \<and> array_uniform np sm (fst (post_init randint a w)) w1
        = (fst (array_uniform np sm (fst (post_init randint a w)) w2), w1)
   \<and> (seed c \<noteq> None \<and> seed d = seed c \<and> random_mixin.more d = random_mixin.more c \<longrightarrow>
        fst (materialize np draw (fst (post_init randint c wc)) w1)
          = fst (materialize np draw (fst (post_init randint d wd)) w2))
   \<and> (seed a \<noteq> None \<and> seed b = seed a \<and> start b = start a \<and> stop b = stop a
        \<and> shape_random b = shape_random a \<longrightarrow>
        fst (array_uniform np sm (fst (post_init randint a wc)) w1)
          = fst (array_uniform np sm (fst (post_init randint b wd)) w2))"
proof (intro conjI impI allI)
  assume "seed self = None"
  then show "post_init randint self w
      = (self\<lparr>seed := Some (fst (randint 0 (10 ^ 12) w))\<rparr>, snd (randint 0 (10 ^ 12) w))"
    by (simp add: post_init_def)
next
  assume "seed self \<noteq> None"
  then show "post_init randint self w = (self, w)"
    by (auto simp: post_init_def)
next
  show "seed (fst (post_init randint self w)) \<noteq> None" by (rule post_init_seed)
next
  from post_init_seed [of randint self w] obtain s
    where "seed (fst (post_init randint self w)) = Some s" by auto
  then show "post_init randint (fst (post_init randint self w)) w'
      = (fst (post_init randint self w), w')"
    by (rule post_init_explicit)
next
  fix s assume "seed self = Some s"
  then show "rng np self w
      = (if s < 0 then Inl (ValueError (Negative_seed s)) else Inr (seeded_rng np s), w)"
    by (rule rng_seeded)
next
  show "materialize np draw (fst (post_init randint self w)) w1
      = (fst (materialize np draw (fst (post_init randint self w)) w2), w1)"
    by (rule materialize_seeded [OF post_init_seed])
next
  show "array_uniform np sm (fst (post_init randint a w)) w1
      = (fst (array_uniform np sm (fst (post_init randint a w)) w2), w1)"
    by (rule array_uniform_seeded [OF post_init_seed])
next
  assume same: "seed c \<noteq> None \<and> seed d = seed c \<and> random_mixin.more d = random_mixin.more c"
  then obtain s where s: "seed c = Some s" "seed d = Some s" by auto
  from same have eq: "d = c" by (simp add: random_mixin.equality)
  have cc: "fst (post_init randint c wc) = c" using s by (simp add: post_init_explicit)
  have cd: "fst (post_init randint d wd) = c" using s eq by (simp add: post_init_explicit)
  have "fst (materialize np draw c w1) = fst (materialize np draw c w2)"
    using materialize_seeded [of c np draw w1 w2] s by simp
  then show "fst (materialize np draw (fst (post_init randint c wc)) w1)
      = fst (materialize np draw (fst (post_init randint d wd)) w2)"
    by (simp add: cc cd)
next
  assume same: "seed a \<noteq> None \<and> seed b = seed a \<and> start b = start a \<and> stop b = stop a
      \<and> shape_random b = shape_random a"
  then obtain s where s: "seed a = Some s" "seed b = Some s" by auto
  have ca: "fst (post_init randint a wc) = a" using s by (simp add: post_init_explicit)
  have cb: "fst (post_init randint b wd) = b" using s by (simp add: post_init_explicit)
  have "fst (array_uniform np sm a w1) = fst (array_uniform np sm a w2)"
    using array_uniform_seeded [of a np sm w1 w2] s by simp
  moreover have "array_uniform np sm b w2 = array_uniform np sm a w2"
    using same by (simp add: array_uniform_def)
  ultimately show "fst (array_uniform np sm (fst (post_init randint a wc)) w1)
      = fst (array_uniform np sm (fst (post_init randint b wd)) w2)"
    by (simp add: ca cb)
qed

theorem random_seed_determinism_witness:
  "seed (fst (post_init counter_randint
       \<lparr>seed = None, start = PlainArg [0], stop = PlainArg [1], shape_random = None\<rparr> (3::nat)))
     = Some 3
   \<and> post_init counter_randint
       \<lparr>seed = Some 42, start = PlainArg [0], stop = PlainArg [1], shape_random = None\<rparr> (3::nat)
     = (\<lparr>seed = Some 42, start = PlainArg [0], stop = PlainArg [1], shape_random = None\<rparr>, 3)
   \<and> array_uniform counter_numpy plain_methods
       \<lparr>seed = Some 42, start = PlainArg [0], stop = PlainArg [1], shape_random = None\<rparr> 5
     = (Inr (ReturnArray \<lparr>ndarray = [42], axes = []\<rparr>), 5)
   \<and> fst (array_uniform counter_numpy plain_methods
       \<lparr>seed = Some 42, start = PlainArg [0], stop = PlainArg [1], shape_random = None\<rparr> 9)
     = Inr (ReturnArray \<lparr>ndarray = [42], axes = []\<rparr>)
   \<and> fst (array_uniform counter_numpy plain_methods
       \<lparr>seed = None, start = PlainArg [0], stop = PlainArg [1], shape_random = None\<rparr> 9)
     = Inr (ReturnArray \<lparr>ndarray = [9], axes = []\<rparr>)
   \<and> materialize counter_numpy counter_draw
       \<lparr>seed = Some 42, start = PlainArg [0::real], stop = PlainArg [1], shape_random = None\<rparr> 5
     = (Inr [42], 5)
   \<and> materialize counter_numpy counter_draw
       \<lparr>seed = Some (- 1), start = PlainArg [0::real], stop = PlainArg [1], shape_random = None\<rparr> 5
     = (Inl (ValueError (Negative_seed (- 1))), 5)"
  using random_seed_determinism [of
      "\<lparr>seed = Some 42, start = PlainArg [0::real], stop = PlainArg [1], shape_random = None\<rparr>"
      counter_randint "3::nat" 3 counter_numpy counter_draw 5 9 plain_methods
      "\<lparr>seed = Some 42, start = PlainArg [0], stop = PlainArg [1], shape_random = None\<rparr>"
      "\<lparr>seed = Some 42, start = PlainArg [0::real], stop = PlainArg [1], shape_random = None\<rparr>"
      "\<lparr>seed = Some 42, start = PlainArg [0::real], stop = PlainArg [1], shape_random = None\<rparr>"
      3 3
      "\<lparr>seed = Some 42, start = PlainArg [0], stop = PlainArg [1], shape_random = None\<rparr>"]
  by (simp add: post_init_def counter_randint_def array_uniform_def random_uniform_def
      uniform_bounds_def uniform_draw_def bind_error_def counter_numpy_def plain_methods_def
      broadcast_shapes_def reversed_dict_def materialize_def rng_def default_rng_def
      counter_draw_def)

end
